theory Spec2Isabelle
  imports Main "HOL-Library.Word"
begin

section \<open>JavaScript values, exceptions and validation results\<close>

text \<open>
  The codecs of \<^verbatim>\<open>common-types/types.ts\<close> work on untyped JavaScript values.
  A JavaScript string is a sequence of UTF-16 code units and \<^verbatim>\<open>.length\<close> counts
  code units, so a string is a list of code units here; \<open>ascii\<close> embeds an ASCII
  literal. Numbers are modelled as integers (the sizes and bounds the codecs compare);
  fractions, NaN and the infinities are outside the model.
\<close>

type_synonym jsstring = "nat list"

definition ascii :: "string \<Rightarrow> jsstring" where
  "ascii s = map of_char s"

text \<open>
  Modelled from the spec: the class \<^verbatim>\<open>IPv4CidrRange\<close> of the library ip-num, the
  domain value of the CIDR codec, is not part of the repository's sources. The record
  follows the specification's NetworkRange: a 4-octet network address and a prefix
  length.
\<close>

record IPv4CidrRange =
  networkAddress :: "8 word \<times> 8 word \<times> 8 word \<times> 8 word"
  prefixLength :: nat

text \<open>
  A \<^verbatim>\<open>Set\<close> is represented by the list of its entries and a \<^verbatim>\<open>Map\<close> by the list of
  its key/value entries, both in insertion order.
\<close>

datatype jsvalue =
    JUndefined
  | JNull
  | JBool bool
  | JNum int
  | JStr jsstring
  | JArray "jsvalue list"
  | JSet "jsvalue list"
  | JMap "(jsvalue \<times> jsvalue) list"
  | JCidr IPv4CidrRange
  | JObject "(jsstring \<times> jsvalue) list"

text \<open>
  A call either returns or throws. \<open>UnsupportedSize v\<close> is the
  \<^verbatim>\<open>new Error(`Unsupported size value ${withSize}`)\<close> of \<^verbatim>\<open>getSize\<close>, \<open>TypeError\<close> is
  the engine's error for a method call on a value that has no such method, and
  \<open>ParseError\<close> is an error thrown by the CIDR parser.
\<close>

datatype exn = UnsupportedSize jsvalue | TypeError | ParseError jsstring

datatype 'a outcome = Throws exn | Returns 'a

text \<open>
  Modelled from the spec: the validation result of io-ts and fp-ts, libraries that are
  not part of the repository's sources. It follows the specification's
  ValidationResult and ValidationError: a result is an \<^verbatim>\<open>Either\<close> whose left side is
  a list of validation errors (offending value, context, optional message);
  \<open>success\<close> (\<^verbatim>\<open>t.success\<close>) is the right side, \<open>failure\<close> (\<^verbatim>\<open>t.failure\<close>) a single
  error on the left side, and \<open>chain\<close> (\<^verbatim>\<open>either.chain\<close>) passes a left side through
  untouched and applies the continuation to a right side.
\<close>

record ContextEntry =
  entry_key :: jsstring
  entry_codecName :: jsstring

type_synonym Context = "ContextEntry list"

record ValidationError =
  error_value :: jsvalue
  error_context :: Context
  error_message :: "jsstring option"

type_synonym Errors = "ValidationError list"

datatype ('e, 'a) Either = Left 'e | Right 'a

definition success :: "'a \<Rightarrow> (Errors, 'a) Either" where
  "success v = Right v"

definition failure :: "jsvalue \<Rightarrow> Context \<Rightarrow> jsstring option \<Rightarrow> (Errors, 'a) Either" where
  "failure v c m = Left [\<lparr>error_value = v, error_context = c, error_message = m\<rparr>]"

definition chain ::
  "('e, 'a) Either \<Rightarrow> ('a \<Rightarrow> ('e, 'b) Either outcome) \<Rightarrow> ('e, 'b) Either outcome" where
  "chain ma f = (case ma of Left e \<Rightarrow> Returns (Left e) | Right a \<Rightarrow> f a)"

text \<open>
  Modelled from the spec: the class \<^verbatim>\<open>t.Type\<close> of io-ts, which every codec of the
  source extends. It follows the specification's Codec: a name, a type guard
  (\<^verbatim>\<open>is\<close>), a validator and an encoder. The validator and the encoder are JavaScript
  functions, so they may throw.
\<close>

record Type =
  name :: jsstring
  is_guard :: "jsvalue \<Rightarrow> bool"
  validate :: "jsvalue \<Rightarrow> Context \<Rightarrow> (Errors, jsvalue) Either outcome"
  encode :: "jsvalue \<Rightarrow> jsvalue outcome"

text \<open>
  Modelled from the spec: the text codec \<^verbatim>\<open>t.string\<close> of io-ts. A string validates
  to itself, any other value fails with a single generic error that carries no message
  of its own; the encoder is the identity.
\<close>

definition string_validate :: "jsvalue \<Rightarrow> Context \<Rightarrow> (Errors, jsstring) Either" where
  "string_validate u c = (case u of JStr s \<Rightarrow> success s | _ \<Rightarrow> failure u c None)"

definition t_string :: Type where
  "t_string =
     \<lparr>name = ascii ''string'',
      is_guard = (\<lambda>u. case u of JStr _ \<Rightarrow> True | _ \<Rightarrow> False),
      validate = (\<lambda>u c. Returns (case string_validate u c of
                                    Left e \<Rightarrow> Left e | Right s \<Rightarrow> Right (JStr s))),
      encode = (\<lambda>a. Returns a)\<rparr>"

section \<open>Number and array rendering\<close>

text \<open>
  \<^verbatim>\<open>String(n)\<close> of an integer number: its decimal digits, with a minus sign when
  negative. \<open>join\<close> is \<^verbatim>\<open>Array.prototype.join\<close> on an array of strings.
\<close>

fun decimal :: "nat \<Rightarrow> jsstring" where
  "decimal n = (if n < 10 then [48 + n] else decimal (n div 10) @ [48 + n mod 10])"

declare decimal.simps [simp del]

definition number_toString :: "int \<Rightarrow> jsstring" where
  "number_toString i = (if i < 0 then 45 # decimal (nat (- i)) else decimal (nat i))"

fun join :: "jsstring \<Rightarrow> jsstring list \<Rightarrow> jsstring" where
  "join sep [] = []"
| "join sep [x] = x"
| "join sep (x # y # ys) = x @ sep @ join sep (y # ys)"

section \<open>The codecs of common-types/types.ts\<close>

subsection \<open>CidrType\<close>

text \<open>
  The two functions of ip-num that \<^verbatim>\<open>CidrType\<close> calls, \<^verbatim>\<open>IPv4CidrRange.fromCidr\<close>
  (which throws on a string it cannot parse) and \<^verbatim>\<open>toCidrString\<close>, are parameters of
  the codec.
\<close>

record ip_num =
  fromCidr :: "jsstring \<Rightarrow> IPv4CidrRange outcome"
  toCidrString :: "IPv4CidrRange \<Rightarrow> jsstring"

definition CidrType :: "ip_num \<Rightarrow> jsstring option \<Rightarrow> Type" where
  "CidrType lib name_arg =
     \<lparr>name = (case name_arg of Some n \<Rightarrow> n | None \<Rightarrow> ascii ''Cidr''),
      is_guard = (\<lambda>value. case value of JCidr _ \<Rightarrow> True | _ \<Rightarrow> False),
      validate = (\<lambda>str context.
        chain (string_validate str context) (\<lambda>s.
          case fromCidr lib s of
            Returns r \<Rightarrow> Returns (success (JCidr r))
          | Throws e \<Rightarrow>
              Returns (failure (JStr s) context
                 (Some (ascii ''Value '' @ s @ ascii '' should be a CIDR range.''))))),
      encode = (\<lambda>c. case c of
                       JCidr r \<Rightarrow> Returns (JStr (toCidrString lib r))
                     | _ \<Rightarrow> Throws TypeError)\<rparr>"

subsection \<open>DefaultedType and OptionalType\<close>

text \<open>\<^verbatim>\<open>u == null\<close> holds of \<^verbatim>\<open>null\<close> and of \<^verbatim>\<open>undefined\<close>, and of nothing else.\<close>

definition eq_null :: "jsvalue \<Rightarrow> bool" where
  "eq_null u = (u = JNull \<or> u = JUndefined)"

definition DefaultedType :: "Type \<Rightarrow> jsvalue \<Rightarrow> jsstring option \<Rightarrow> Type" where
  "DefaultedType type defaultValue name_arg =
     \<lparr>name = (case name_arg of
                Some n \<Rightarrow> n
              | None \<Rightarrow> ascii ''Default<'' @ name type @ ascii ''>''),
      is_guard = is_guard type,
      validate = (\<lambda>u c. if eq_null u then Returns (success defaultValue)
                         else validate type u c),
      encode = encode type\<rparr>"

definition OptionalType :: "Type \<Rightarrow> jsstring option \<Rightarrow> Type" where
  "OptionalType type name_arg =
     \<lparr>name = (case name_arg of
                Some n \<Rightarrow> n
              | None \<Rightarrow> ascii ''Optional<'' @ name type @ ascii ''>''),
      is_guard = (\<lambda>u. if eq_null u then True else is_guard type u),
      validate = (\<lambda>u c. if eq_null u then Returns (success JUndefined)
                         else validate type u c),
      encode = encode type\<rparr>"

subsection \<open>getSize and SizedType\<close>

fun getSize :: "jsvalue \<Rightarrow> int outcome" where
  "getSize (JNum n) = Returns n"
| "getSize (JStr s) = Returns (int (length s))"
| "getSize (JArray xs) = Returns (int (length xs))"
| "getSize (JSet xs) = Returns (int (length xs))"
| "getSize (JMap kvs) = Returns (int (length kvs))"
| "getSize withSize = Throws (UnsupportedSize withSize)"

record SizedTypeProps =
  props_min :: "int option"
  props_max :: "int option"
  props_name :: "jsstring option"
  props_errorMessage :: "jsstring option"

text \<open>
  \<^verbatim>\<open>!props.min\<close> and \<^verbatim>\<open>props.min &&\<close> test the truthiness of an optional number:
  \<^verbatim>\<open>undefined\<close> and \<^verbatim>\<open>0\<close> are falsy. A comparison with \<^verbatim>\<open>undefined\<close> is false.
  \<^verbatim>\<open>props.min ?? d\<close> is \<open>d\<close> only when the bound is \<^verbatim>\<open>undefined\<close>.
\<close>

definition truthy :: "int option \<Rightarrow> bool" where
  "truthy b = (case b of None \<Rightarrow> False | Some k \<Rightarrow> k \<noteq> 0)"

definition falsy :: "int option \<Rightarrow> bool" where
  "falsy b = (case b of None \<Rightarrow> True | Some k \<Rightarrow> k = 0)"

definition size_ge :: "int \<Rightarrow> int option \<Rightarrow> bool" where
  "size_ge sz b = (case b of None \<Rightarrow> False | Some k \<Rightarrow> sz \<ge> k)"

definition size_le :: "int \<Rightarrow> int option \<Rightarrow> bool" where
  "size_le sz b = (case b of None \<Rightarrow> False | Some k \<Rightarrow> sz \<le> k)"

definition bound_or :: "int option \<Rightarrow> jsstring \<Rightarrow> jsstring" where
  "bound_or b d = (case b of None \<Rightarrow> d | Some k \<Rightarrow> number_toString k)"

definition infinity_sign :: jsstring where
  "infinity_sign = [8734]"

definition sized_errorMessage :: "SizedTypeProps \<Rightarrow> jsstring" where
  "sized_errorMessage props =
     (case props_errorMessage props of
        Some m \<Rightarrow> m
      | None \<Rightarrow>
          ascii ''Value'' @ ascii '' should be of size ['' @
          bound_or (props_min props) (ascii ''-'' @ infinity_sign) @ ascii '', '' @
          bound_or (props_max props) infinity_sign @ ascii '']'')"

definition SizedType :: "Type \<Rightarrow> SizedTypeProps \<Rightarrow> Type" where
  "SizedType type props =
     \<lparr>name = (case props_name props of
                Some n \<Rightarrow> n
              | None \<Rightarrow> ascii ''Sized<'' @ name type @ ascii ''>''),
      is_guard = is_guard type,
      validate = (\<lambda>u c.
        case validate type u c of
          Throws e \<Rightarrow> Throws e
        | Returns ma \<Rightarrow>
            chain ma (\<lambda>s.
              case getSize s of
                Throws e \<Rightarrow> Throws e
              | Returns sz \<Rightarrow>
                  let minValid = (falsy (props_min props) \<or>
                                    (truthy (props_min props) \<and> size_ge sz (props_min props)));
                      maxValid = (falsy (props_max props) \<or>
                                    (truthy (props_max props) \<and> size_le sz (props_max props)))
                  in if minValid \<and> maxValid then Returns (success s)
                     else Returns (failure s c (Some (sized_errorMessage props))))),
      encode = encode type\<rparr>"

subsection \<open>EnumType\<close>

text \<open>
  The allowed values of an enumeration are strings or numbers
  (\<^verbatim>\<open>T extends string | number\<close>); \<^verbatim>\<open>v === u\<close> on such a value is equality of values,
  and \<^verbatim>\<open>join\<close> renders a number by \<^verbatim>\<open>String\<close>.
\<close>

datatype literal = LStr jsstring | LNum int

fun literal_value :: "literal \<Rightarrow> jsvalue" where
  "literal_value (LStr s) = JStr s"
| "literal_value (LNum n) = JNum n"

fun literal_toString :: "literal \<Rightarrow> jsstring" where
  "literal_toString (LStr s) = s"
| "literal_toString (LNum n) = number_toString n"

record EnumTypeProps =
  eprops_name :: jsstring
  eprops_errorMessage :: "jsstring option"

definition enum_is :: "literal list \<Rightarrow> jsvalue \<Rightarrow> bool" where
  "enum_is values u = list_ex (\<lambda>v. literal_value v = u) values"

definition enum_errorMessage :: "literal list \<Rightarrow> EnumTypeProps \<Rightarrow> jsstring" where
  "enum_errorMessage values props =
     (case eprops_errorMessage props of
        Some m \<Rightarrow> m
      | None \<Rightarrow>
          ascii ''Value should be one of \"'' @
          join (ascii ''\", \"'') (map literal_toString values) @ ascii ''\"'')"

definition EnumType :: "literal list \<Rightarrow> EnumTypeProps \<Rightarrow> Type" where
  "EnumType values props =
     \<lparr>name = eprops_name props,
      is_guard = enum_is values,
      validate = (\<lambda>u c. if enum_is values u then Returns (success u)
                         else Returns (failure u c (Some (enum_errorMessage values props)))),
      encode = (\<lambda>a. Returns a)\<rparr>"

subsection \<open>The factory functions and the exported codecs\<close>

definition defaulted :: "Type \<Rightarrow> jsvalue \<Rightarrow> jsstring option \<Rightarrow> Type" where
  "defaulted type defaultValue name_arg = DefaultedType type defaultValue name_arg"

definition sized :: "Type \<Rightarrow> SizedTypeProps \<Rightarrow> Type" where
  "sized type props = SizedType type props"

definition enums :: "jsstring \<Rightarrow> literal list \<Rightarrow> jsstring option \<Rightarrow> Type" where
  "enums name_arg values errorMessage =
     EnumType values \<lparr>eprops_name = name_arg, eprops_errorMessage = errorMessage\<rparr>"

definition optional :: "Type \<Rightarrow> jsstring option \<Rightarrow> Type" where
  "optional wrapped name_arg = OptionalType wrapped name_arg"

definition nonEmptyString :: Type where
  "nonEmptyString =
     sized t_string
       \<lparr>props_min = Some 1, props_max = None, props_name = None,
        props_errorMessage = Some (ascii ''Value can not be empty.'')\<rparr>"

definition cidr :: "ip_num \<Rightarrow> Type" where
  "cidr lib = CidrType lib None"

definition storageClass_values :: "literal list" where
  "storageClass_values =
     [LStr (ascii ''DEEP_ARCHIVE''),
      LStr (ascii ''GLACIER''),
      LStr (ascii ''GLACIER_IR''),
      LStr (ascii ''STANDARD_IA''),
      LStr (ascii ''INTELLIGENT_TIERING''),
      LStr (ascii ''ONEZONE_IA''),
      LStr (ascii ''Value should be an AWS S3 Storage Class.'')]"

definition storageClass :: Type where
  "storageClass = enums (ascii ''storageClass'') storageClass_values None"

definition allowDeny :: Type where
  "allowDeny =
     enums (ascii ''AllowDeny'') [LStr (ascii ''allow''), LStr (ascii ''deny'')]
       (Some (ascii ''Value should be allow or deny''))"

subsection \<open>The type WithSize and a codec that throws\<close>

text \<open>
  \<^verbatim>\<open>type WithSize = number | string | any[] | Map<any, any> | Set<any>\<close>, as a predicate
  on runtime values.
\<close>

fun WithSize :: "jsvalue \<Rightarrow> bool" where
  "WithSize (JNum n) = True"
| "WithSize (JStr s) = True"
| "WithSize (JArray xs) = True"
| "WithSize (JMap kvs) = True"
| "WithSize (JSet xs) = True"
| "WithSize v = False"

text \<open>A codec whose validator and encoder throw on every input; it observes whether a
  wrapper calls them.\<close>

definition throwing_type :: Type where
  "throwing_type =
     \<lparr>name = ascii ''Throwing'',
      is_guard = (\<lambda>u. False),
      validate = (\<lambda>u c. Throws TypeError),
      encode = (\<lambda>a. Throws TypeError)\<rparr>"

section \<open>The CIDR parser and printer of the specification\<close>

text \<open>
  Modelled from the spec: \<^verbatim>\<open>IPv4CidrRange.fromCidr\<close> and \<^verbatim>\<open>toCidrString\<close> of the library
  ip-num, which are not part of the repository's sources. The specification gives the
  canonical text form \<^verbatim>\<open>a.b.c.d/prefixLength\<close>, and a parser that accepts the notation
  \<^verbatim>\<open>address/prefixLength\<close> and fails on a malformed address, on a prefix outside
  \<open>[0, 32]\<close> and on a wrong number of octets. An octet is a non-empty run of decimal
  digits of value at most 255 (leading zeros are read and not kept), four octets are
  separated by dots, and the prefix is a non-empty run of decimal digits of value at
  most 32. The parser zeroes the address bits beyond the prefix, and the printer renders
  the normalized form: leading zeros and host bits of an input are not preserved.
\<close>

unbundle bit_operations_syntax

text \<open>
  \<open>octet_mask k\<close> keeps the \<open>k\<close> leading bits of an octet (all of them from \<open>k = 8\<close>
  on); \<open>zero_host_bits\<close> zeroes the bits of a 4-octet address beyond a prefix of \<open>p\<close>
  bits, octet by octet.
\<close>

definition octet_mask :: "nat \<Rightarrow> 8 word" where
  "octet_mask k = push_bit (8 - k) (- 1)"

definition zero_host_bits ::
  "8 word \<times> 8 word \<times> 8 word \<times> 8 word \<Rightarrow> nat \<Rightarrow> 8 word \<times> 8 word \<times> 8 word \<times> 8 word" where
  "zero_host_bits address p =
     (case address of
        (a, b, c, d) \<Rightarrow>
          (a AND octet_mask p, b AND octet_mask (p - 8),
           c AND octet_mask (p - 16), d AND octet_mask (p - 24)))"

fun split_on :: "nat \<Rightarrow> jsstring \<Rightarrow> jsstring list" where
  "split_on sep [] = [[]]"
| "split_on sep (c # cs) =
     (if c = sep then [] # split_on sep cs
      else (case split_on sep cs of
              [] \<Rightarrow> [[c]]
            | w # ws \<Rightarrow> (c # w) # ws))"

definition is_digit :: "nat \<Rightarrow> bool" where
  "is_digit c = (48 \<le> c \<and> c \<le> 57)"

definition parse_decimal :: "jsstring \<Rightarrow> nat option" where
  "parse_decimal s =
     (if s \<noteq> [] \<and> list_all is_digit s
      then Some (foldl (\<lambda>a c. 10 * a + (c - 48)) 0 s) else None)"

definition parse_octet :: "jsstring \<Rightarrow> 8 word option" where
  "parse_octet s =
     (case parse_decimal s of
        Some n \<Rightarrow> if n \<le> 255 then Some (of_nat n) else None
      | None \<Rightarrow> None)"

definition parse_prefix :: "jsstring \<Rightarrow> nat option" where
  "parse_prefix s =
     (case parse_decimal s of
        Some n \<Rightarrow> if n \<le> 32 then Some n else None
      | None \<Rightarrow> None)"

definition spec_fromCidr :: "jsstring \<Rightarrow> IPv4CidrRange outcome" where
  "spec_fromCidr s =
     (case split_on 47 s of
        [address, prefix] \<Rightarrow>
          (case map parse_octet (split_on 46 address) of
             [Some a, Some b, Some c, Some d] \<Rightarrow>
               (case parse_prefix prefix of
                  Some p \<Rightarrow>
                    Returns \<lparr>networkAddress = zero_host_bits (a, b, c, d) p,
                             prefixLength = p\<rparr>
                | None \<Rightarrow> Throws (ParseError s))
           | _ \<Rightarrow> Throws (ParseError s))
      | _ \<Rightarrow> Throws (ParseError s))"

definition spec_toCidrString :: "IPv4CidrRange \<Rightarrow> jsstring" where
  "spec_toCidrString r =
     (case zero_host_bits (networkAddress r) (prefixLength r) of
        (a, b, c, d) \<Rightarrow>
          decimal (unat a) @ [46] @ decimal (unat b) @ [46] @
          decimal (unat c) @ [46] @ decimal (unat d) @ [47] @ decimal (prefixLength r))"

definition spec_ip_num :: ip_num where
  "spec_ip_num = \<lparr>fromCidr = spec_fromCidr, toCidrString = spec_toCidrString\<rparr>"

text \<open>
  The specification's ``already-canonical'' text, the normalized form
  \<^verbatim>\<open>a.b.c.d/prefixLength\<close>: four octets and a prefix length, each written as a decimal
  numeral without leading zeros, the octets at most 255, the prefix length at most 32,
  and no address bit set beyond the prefix.
\<close>

definition canonical_decimal :: "jsstring \<Rightarrow> bool" where
  "canonical_decimal s = (s \<noteq> [] \<and> list_all is_digit s \<and> (length s = 1 \<or> hd s \<noteq> 48))"

definition canonical_octet :: "jsstring \<Rightarrow> bool" where
  "canonical_octet s =
     (canonical_decimal s \<and> (case parse_decimal s of Some n \<Rightarrow> n \<le> 255 | None \<Rightarrow> False))"

definition canonical_prefix :: "jsstring \<Rightarrow> bool" where
  "canonical_prefix s =
     (canonical_decimal s \<and> (case parse_decimal s of Some n \<Rightarrow> n \<le> 32 | None \<Rightarrow> False))"

definition canonical_cidr :: "jsstring \<Rightarrow> bool" where
  "canonical_cidr s =
     (case split_on 47 s of
        [address, prefix] \<Rightarrow>
          (case split_on 46 address of
             [a, b, c, d] \<Rightarrow>
               canonical_octet a \<and> canonical_octet b \<and> canonical_octet c \<and>
               canonical_octet d \<and> canonical_prefix prefix \<and>
               (case (map parse_octet [a, b, c, d], parse_prefix prefix) of
                  ([Some wa, Some wb, Some wc, Some wd], Some p) \<Rightarrow>
                    zero_host_bits (wa, wb, wc, wd) p = (wa, wb, wc, wd)
                | _ \<Rightarrow> False)
           | _ \<Rightarrow> False)
      | _ \<Rightarrow> False)"

section \<open>The invariant of a codec\<close>

text \<open>
  The specification's invariant of a codec: whatever a successful \<open>validate\<close> produces
  satisfies the codec's own type guard.
\<close>

definition validate_sound :: "Type \<Rightarrow> bool" where
  "validate_sound T = (\<forall>u c a. validate T u c = Returns (success a) \<longrightarrow> is_guard T a)"

section \<open>Auxiliary facts\<close>

lemma ascii_eq_iff [simp]: "ascii a = ascii b \<longleftrightarrow> a = b"
  unfolding ascii_def by (simp add: inj_on_def)

lemma ascii_append: "ascii (a @ b) = ascii a @ ascii b"
  by (simp add: ascii_def)

lemma join_quoted:
  "xs \<noteq> [] \<Longrightarrow>
   join (ascii '', '') (map (\<lambda>x. ascii ''\"'' @ x @ ascii ''\"'') xs) =
   ascii ''\"'' @ join (ascii ''\", \"'') xs @ ascii ''\"''"
proof (induction "ascii ''\", \"''" xs rule: join.induct)
  case 1
  then show ?case by simp
next
  case (2 x)
  then show ?case by simp
next
  case (3 x y ys)
  then show ?case by (simp add: ascii_def)
qed

lemma validate_sound_t_string: "validate_sound t_string"
  by (auto simp: validate_sound_def t_string_def string_validate_def success_def failure_def
      split: jsvalue.splits)

subsection \<open>Decimal digits\<close>

lemma decimal_digits: "list_all is_digit (decimal n)"
proof (induction n rule: decimal.induct)
  case (1 n)
  show ?case
  proof (cases "n < 10")
    case True
    then show ?thesis by (simp add: decimal.simps [of n] is_digit_def)
  next
    case False
    have "n mod 10 < 10" by simp
    then have "is_digit (48 + n mod 10)" unfolding is_digit_def by linarith
    with False 1 show ?thesis by (simp add: decimal.simps [of n])
  qed
qed

lemma decimal_nonempty: "decimal n \<noteq> []"
  by (simp add: decimal.simps [of n])

lemma decimal_value: "foldl (\<lambda>a c. 10 * a + (c - 48)) 0 (decimal n) = n"
proof (induction n rule: decimal.induct)
  case (1 n)
  show ?case
  proof (cases "n < 10")
    case True
    then show ?thesis by (simp add: decimal.simps [of n])
  next
    case False
    with 1 show ?thesis by (simp add: decimal.simps [of n])
  qed
qed

lemma parse_decimal_decimal: "parse_decimal (decimal n) = Some n"
  by (simp add: parse_decimal_def decimal_digits decimal_nonempty decimal_value)

lemma decimal_no_sep: "c < 48 \<Longrightarrow> c \<notin> set (decimal n)"
  using decimal_digits [of n] by (auto simp: list_all_iff is_digit_def)

lemma parse_octet_decimal: "parse_octet (decimal (unat (a :: 8 word))) = Some a"
proof -
  have "unat a < 256" using unsigned_less [of a] by simp
  then show ?thesis by (simp add: parse_octet_def parse_decimal_decimal)
qed

lemma parse_prefix_decimal: "p \<le> 32 \<Longrightarrow> parse_prefix (decimal p) = Some p"
  by (simp add: parse_prefix_def parse_decimal_decimal)

subsection \<open>Splitting at a separator\<close>

lemma split_on_none: "sep \<notin> set s \<Longrightarrow> split_on sep s = [s]"
  by (induction s) auto

lemma split_on_append:
  "sep \<notin> set a \<Longrightarrow> split_on sep (a @ sep # rest) = a # split_on sep rest"
  by (induction a) (auto split: list.splits)

subsection \<open>Parsing a printed range\<close>

lemma zero_host_bits_idem:
  "zero_host_bits (zero_host_bits address p) p = zero_host_bits address p"
  by (cases address) (simp add: zero_host_bits_def and.assoc)

lemma spec_roundtrip:
  assumes "prefixLength x \<le> 32"
  shows "spec_fromCidr (spec_toCidrString x) =
    Returns (x\<lparr>networkAddress := zero_host_bits (networkAddress x) (prefixLength x)\<rparr>)"
proof -
  obtain a b c d where addr: "zero_host_bits (networkAddress x) (prefixLength x) = (a, b, c, d)"
    by (metis prod_cases4)
  define address where
    "address = decimal (unat a) @ 46 # decimal (unat b) @ 46 # decimal (unat c) @ 46 # decimal (unat d)"
  have str: "spec_toCidrString x = address @ 47 # decimal (prefixLength x)"
    by (simp add: spec_toCidrString_def addr address_def)
  have no_slash: "47 \<notin> set address"
    by (simp add: address_def decimal_no_sep)
  have outer: "split_on 47 (spec_toCidrString x) = [address, decimal (prefixLength x)]"
    by (simp add: str split_on_append no_slash split_on_none decimal_no_sep)
  have inner: "split_on 46 address =
      [decimal (unat a), decimal (unat b), decimal (unat c), decimal (unat d)]"
    by (simp add: address_def split_on_append split_on_none decimal_no_sep)
  have again: "zero_host_bits (a, b, c, d) (prefixLength x) = (a, b, c, d)"
    using zero_host_bits_idem [of "networkAddress x" "prefixLength x"] by (simp add: addr)
  have "x\<lparr>networkAddress := (a, b, c, d)\<rparr> =
      \<lparr>networkAddress = (a, b, c, d), prefixLength = prefixLength x\<rparr>"
    by (cases x) simp
  then show ?thesis
    using assms
    by (simp add: spec_fromCidr_def outer inner parse_octet_decimal parse_prefix_decimal
        again addr)
qed

lemma spec_fromCidr_normal:
  "spec_fromCidr s = Returns y \<Longrightarrow>
   prefixLength y \<le> 32 \<and> zero_host_bits (networkAddress y) (prefixLength y) = networkAddress y"
  by (auto simp: spec_fromCidr_def parse_prefix_def zero_host_bits_idem
      split: list.splits option.splits if_splits)

subsection \<open>Printing a parsed canonical text\<close>

lemma canonical_decimal_print:
  "s \<noteq> [] \<Longrightarrow> list_all is_digit s \<Longrightarrow> length s = 1 \<or> hd s \<noteq> 48 \<Longrightarrow>
   decimal (foldl (\<lambda>a c. 10 * a + (c - 48)) 0 s) = s"
proof (induction s rule: rev_induct)
  case Nil
  then show ?case by simp
next
  case (snoc d t)
  let ?f = "\<lambda>a c. 10 * a + (c - 48 :: nat)"
  from snoc.prems have d: "48 \<le> d" "d \<le> 57" by (simp_all add: is_digit_def)
  show ?case
  proof (cases "t = []")
    case True
    from d have "d - 48 < 10" by linarith
    with d True show ?thesis by (simp add: decimal.simps [of "d - 48"])
  next
    case False
    with snoc.prems have ht: "hd t \<noteq> 48" by (cases t) auto
    from snoc.prems have "list_all is_digit t" by simp
    with snoc.IH False ht have ih: "decimal (foldl ?f 0 t) = t" by simp
    have pos: "foldl ?f 0 t \<noteq> 0"
    proof
      assume "foldl ?f 0 t = 0"
      with ih have "t = [48]" by (simp add: decimal.simps [of 0])
      with ht show False by simp
    qed
    define v where "v = foldl ?f 0 t"
    define e where "e = d - 48"
    from d have e: "e < 10" "d = 48 + e" by (simp_all add: e_def)
    from pos have v: "0 < v" by (simp add: v_def)
    have "(10 * v + e) div 10 = v" "(10 * v + e) mod 10 = e" "\<not> 10 * v + e < 10"
      using e v by simp_all
    then have "decimal (10 * v + e) = decimal v @ [d]"
      using e by (simp add: decimal.simps [of "10 * v + e"])
    then have "decimal (10 * foldl ?f 0 t + (d - 48)) = decimal (foldl ?f 0 t) @ [d]"
      by (simp add: v_def e_def)
    with ih show ?thesis by simp
  qed
qed

lemma canonical_decimal_parse:
  "canonical_decimal s \<Longrightarrow> parse_decimal s = Some n \<Longrightarrow> decimal n = s"
  using canonical_decimal_print [of s]
  by (auto simp: canonical_decimal_def parse_decimal_def split: if_splits)

lemma split_on_nonempty: "split_on sep s \<noteq> []"
  by (induction s) (auto split: list.splits)

lemma join_cons_head: "join sep ((c # w) # ws) = c # join sep (w # ws)"
  by (cases ws) simp_all

lemma join_split_on: "join [sep] (split_on sep s) = s"
proof (induction s)
  case Nil
  then show ?case by simp
next
  case (Cons c cs)
  obtain w ws where sp: "split_on sep cs = w # ws"
    using split_on_nonempty [of sep cs] by (cases "split_on sep cs") auto
  show ?case
  proof (cases "c = sep")
    case True
    with Cons sp show ?thesis by simp
  next
    case False
    with Cons sp show ?thesis by (simp add: join_cons_head)
  qed
qed

lemma octet_of_nat: "n \<le> 255 \<Longrightarrow> unat (of_nat n :: 8 word) = n"
  by (simp add: unsigned_of_nat take_bit_nat_eq_self)

lemma canonical_octet_print:
  assumes "canonical_octet s"
  shows "\<exists>a. parse_octet s = Some a \<and> decimal (unat a) = s"
proof -
  from assms obtain n where n: "parse_decimal s = Some n" "n \<le> 255" and c: "canonical_decimal s"
    by (auto simp: canonical_octet_def split: option.splits)
  then have "parse_octet s = Some (of_nat n)" by (simp add: parse_octet_def)
  moreover have "decimal (unat (of_nat n :: 8 word)) = s"
    using n c by (simp add: octet_of_nat canonical_decimal_parse)
  ultimately show ?thesis by blast
qed

lemma canonical_prefix_print:
  assumes "canonical_prefix s"
  shows "\<exists>p. parse_prefix s = Some p \<and> decimal p = s"
proof -
  from assms obtain n where n: "parse_decimal s = Some n" "n \<le> 32" and c: "canonical_decimal s"
    by (auto simp: canonical_prefix_def split: option.splits)
  then show ?thesis by (simp add: parse_prefix_def canonical_decimal_parse)
qed

lemma spec_canonical:
  assumes "canonical_cidr s"
  shows "\<exists>x. spec_fromCidr s = Returns x \<and> spec_toCidrString x = s"
proof -
  from assms obtain address prefix where outer: "split_on 47 s = [address, prefix]"
    by (auto simp: canonical_cidr_def split: list.splits)
  with assms obtain a b c d where inner: "split_on 46 address = [a, b, c, d]"
    by (auto simp: canonical_cidr_def split: list.splits)
  from assms outer inner have can: "canonical_octet a" "canonical_octet b" "canonical_octet c"
      "canonical_octet d" "canonical_prefix prefix"
    by (simp_all add: canonical_cidr_def)
  from can obtain wa wb wc wd p where
    pa: "parse_octet a = Some wa" "decimal (unat wa) = a" and
    pb: "parse_octet b = Some wb" "decimal (unat wb) = b" and
    pc: "parse_octet c = Some wc" "decimal (unat wc) = c" and
    pd: "parse_octet d = Some wd" "decimal (unat wd) = d" and
    pp: "parse_prefix prefix = Some p" "decimal p = prefix"
    using canonical_octet_print canonical_prefix_print by metis
  from assms have normal: "zero_host_bits (wa, wb, wc, wd) p = (wa, wb, wc, wd)"
    by (simp add: canonical_cidr_def outer inner pa pb pc pd pp)
  have s: "s = address @ 47 # prefix"
    using join_split_on [of 47 s] outer by simp
  have address: "address = a @ 46 # b @ 46 # c @ 46 # d"
    using join_split_on [of 46 address] inner by simp
  let ?x = "\<lparr>networkAddress = (wa, wb, wc, wd), prefixLength = p\<rparr>"
  have "spec_fromCidr s = Returns ?x"
    by (simp add: spec_fromCidr_def outer inner pa pb pc pd pp normal)
  moreover have "spec_toCidrString ?x = s"
    by (simp add: spec_toCidrString_def pa pb pc pd pp s address normal)
  ultimately show ?thesis by blast
qed

lemma decimal_hd: "n \<noteq> 0 \<Longrightarrow> hd (decimal n) \<noteq> 48"
proof (induction n rule: decimal.induct)
  case (1 n)
  show ?case
  proof (cases "n < 10")
    case True
    with 1 show ?thesis by (simp add: decimal.simps [of n])
  next
    case False
    then have "n div 10 \<noteq> 0" by simp
    with 1 False have "hd (decimal (n div 10)) \<noteq> 48" by simp
    with False show ?thesis by (simp add: decimal.simps [of n] decimal_nonempty)
  qed
qed

lemma canonical_decimal_decimal: "canonical_decimal (decimal n)"
proof (cases "n = 0")
  case True
  then show ?thesis by (simp add: canonical_decimal_def decimal.simps [of 0] is_digit_def)
next
  case False
  then show ?thesis
    by (simp add: canonical_decimal_def decimal_nonempty decimal_digits decimal_hd)
qed

lemma canonical_printed:
  assumes "prefixLength x \<le> 32"
  shows "canonical_cidr (spec_toCidrString x)"
proof -
  obtain a b c d where addr: "zero_host_bits (networkAddress x) (prefixLength x) = (a, b, c, d)"
    by (metis prod_cases4)
  define address where
    "address = decimal (unat a) @ 46 # decimal (unat b) @ 46 # decimal (unat c) @ 46 # decimal (unat d)"
  have str: "spec_toCidrString x = address @ 47 # decimal (prefixLength x)"
    by (simp add: spec_toCidrString_def addr address_def)
  have no_slash: "47 \<notin> set address"
    by (simp add: address_def decimal_no_sep)
  have outer: "split_on 47 (spec_toCidrString x) = [address, decimal (prefixLength x)]"
    by (simp add: str split_on_append no_slash split_on_none decimal_no_sep)
  have inner: "split_on 46 address =
      [decimal (unat a), decimal (unat b), decimal (unat c), decimal (unat d)]"
    by (simp add: address_def split_on_append split_on_none decimal_no_sep)
  have octet: "canonical_octet (decimal (unat w))" for w :: "8 word"
  proof -
    have "unat w < 256" using unsigned_less [of w] by simp
    then show ?thesis
      by (simp add: canonical_octet_def canonical_decimal_decimal parse_decimal_decimal)
  qed
  have pre: "canonical_prefix (decimal (prefixLength x))"
    using assms by (simp add: canonical_prefix_def canonical_decimal_decimal parse_decimal_decimal)
  have again: "zero_host_bits (a, b, c, d) (prefixLength x) = (a, b, c, d)"
    using zero_host_bits_idem [of "networkAddress x" "prefixLength x"] by (simp add: addr)
  show ?thesis
    using assms
    by (simp add: canonical_cidr_def outer inner octet pre parse_octet_decimal
        parse_prefix_decimal again)
qed

section \<open>Properties of the codecs\<close>

subsection \<open>DefaultedType and OptionalType on absent input\<close>

text \<open>
  C5: for every inner codec \<open>T\<close> and default \<open>d\<close>, \<open>Defaulted(T, d).validate\<close> on
  \<^verbatim>\<open>null\<close> and on \<^verbatim>\<open>undefined\<close> returns \<open>Success(d)\<close> whatever \<open>T\<close>'s own validator
  would do there (it is not called: the result is the same for a \<open>T\<close> whose validator
  throws), and on every other input \<open>u\<close> it returns exactly \<open>T.validate(u)\<close>.
\<close>

theorem defaulted_validate:
  "validate (DefaultedType T d n) JNull c = Returns (success d) \<and>
   validate (DefaultedType T d n) JUndefined c = Returns (success d) \<and>
   (u \<noteq> JNull \<and> u \<noteq> JUndefined \<longrightarrow>
      validate (DefaultedType T d n) u c = validate T u c)"
  by (simp add: DefaultedType_def eq_null_def)

theorem defaulted_validate_witness:
  "validate throwing_type JNull [] = Throws TypeError \<and>
   validate (DefaultedType throwing_type (JNum 7) None) JNull [] = Returns (success (JNum 7)) \<and>
   validate (DefaultedType throwing_type (JNum 7) None) JUndefined [] =
     Returns (success (JNum 7)) \<and>
   JStr (ascii ''a'') \<noteq> JNull \<and> JStr (ascii ''a'') \<noteq> JUndefined \<and>
   validate (DefaultedType t_string (JStr (ascii ''d'')) None) (JStr (ascii ''a'')) [] =
     validate t_string (JStr (ascii ''a'')) []"
  using defaulted_validate [of throwing_type "JNum 7" None "[]" "JStr (ascii ''a'')"]
        defaulted_validate [of t_string "JStr (ascii ''d'')" None "[]" "JStr (ascii ''a'')"]
  by (simp add: throwing_type_def)

text \<open>
  C6: for every inner codec \<open>T\<close>, \<open>Optional(T).validate\<close> of \<^verbatim>\<open>null\<close> and of a missing
  value (\<^verbatim>\<open>undefined\<close>) returns \<open>Success(undefined)\<close>, and of every other input \<open>x\<close>
  it returns exactly \<open>T.validate(x)\<close>.
\<close>

theorem optional_validate:
  "validate (OptionalType T n) JNull c = Returns (success JUndefined) \<and>
   validate (OptionalType T n) JUndefined c = Returns (success JUndefined) \<and>
   (x \<noteq> JNull \<and> x \<noteq> JUndefined \<longrightarrow>
      validate (OptionalType T n) x c = validate T x c)"
  by (simp add: OptionalType_def eq_null_def)

theorem optional_validate_witness:
  "validate (OptionalType throwing_type None) JNull [] = Returns (success JUndefined) \<and>
   validate (OptionalType throwing_type None) JUndefined [] = Returns (success JUndefined) \<and>
   JNum 3 \<noteq> JNull \<and> JNum 3 \<noteq> JUndefined \<and>
   validate (OptionalType t_string None) (JNum 3) [] = validate t_string (JNum 3) [] \<and>
   validate (OptionalType t_string None) (JStr (ascii ''a'')) [] =
     Returns (success (JStr (ascii ''a'')))"
  using optional_validate [of throwing_type None "[]" "JNum 3"]
        optional_validate [of t_string None "[]" "JNum 3"]
        optional_validate [of t_string None "[]" "JStr (ascii ''a'')"]
  by (simp add: t_string_def string_validate_def success_def)

subsection \<open>getSize\<close>

text \<open>
  C8: \<open>getSize\<close> returns a number itself, the length of a string, the element count of
  an array, the cardinality of a set and the entry count of a map (a set is given by
  its distinct entries, a map by its entries with distinct keys); on a value of any
  other runtime shape it throws the unsupported-size error, an exception and not a
  failure result.
\<close>

theorem getSize_shapes:
  "getSize (JNum n) = Returns n \<and>
   getSize (JStr s) = Returns (int (length s)) \<and>
   getSize (JArray xs) = Returns (int (length xs)) \<and>
   (distinct ys \<longrightarrow> getSize (JSet ys) = Returns (int (card (set ys)))) \<and>
   (distinct (map fst kvs) \<longrightarrow>
      getSize (JMap kvs) = Returns (int (card (dom (map_of kvs))))) \<and>
   (\<not> WithSize v \<longrightarrow> getSize v = Throws (UnsupportedSize v))"
proof -
  have other: "\<not> WithSize v \<Longrightarrow> getSize v = Throws (UnsupportedSize v)"
    by (cases v) simp_all
  have set_card: "distinct ys \<Longrightarrow> length ys = card (set ys)"
    by (simp add: distinct_card)
  have map_card: "distinct (map fst kvs) \<Longrightarrow> length kvs = card (dom (map_of kvs))"
    by (metis distinct_card dom_map_of_conv_image_fst length_map list.set_map)
  show ?thesis using other set_card map_card by simp
qed

theorem getSize_shapes_witness:
  "getSize (JNum 5) = Returns 5 \<and>
   getSize (JStr (ascii ''abc'')) = Returns 3 \<and>
   getSize (JArray [JNum 1, JNum 2, JNum 3]) = Returns 3 \<and>
   distinct [JStr (ascii ''a''), JStr (ascii ''b'')] \<and>
   getSize (JSet [JStr (ascii ''a''), JStr (ascii ''b'')]) = Returns 2 \<and>
   distinct (map fst [(JStr (ascii ''k1''), JStr (ascii ''v1''))]) \<and>
   getSize (JMap [(JStr (ascii ''k1''), JStr (ascii ''v1''))]) = Returns 1 \<and>
   \<not> WithSize (JBool True) \<and>
   getSize (JBool True) = Throws (UnsupportedSize (JBool True))"
  using getSize_shapes [of 5 "ascii ''abc''" "[JNum 1, JNum 2, JNum 3]"
      "[JStr (ascii ''a''), JStr (ascii ''b'')]" "[(JStr (ascii ''k1''), JStr (ascii ''v1''))]"
      "JBool True"]
  by (simp add: ascii_def)

subsection \<open>EnumType\<close>

text \<open>
  C7: for every enumeration codec built from an ordered list of allowed values and
  every input \<open>u\<close>, \<open>validate\<close> succeeds with \<open>u\<close> unchanged if and only if \<open>u\<close> equals
  one of the allowed values; otherwise it fails with the custom error message when one
  was supplied and else with the generated message, which (for a non-empty list) is
  \<^verbatim>\<open>Value should be one of\<close> followed by every allowed value in double quotes, in
  declaration order, separated by a comma and a space; \<open>encode\<close> is the identity.
\<close>

theorem enum_validate:
  "(validate (EnumType vals props) u c = Returns (success u)
      \<longleftrightarrow> (\<exists>v. v \<in> set vals \<and> literal_value v = u)) \<and>
   (\<not> (\<exists>v. v \<in> set vals \<and> literal_value v = u) \<longrightarrow>
      validate (EnumType vals props) u c =
        Returns (Left [\<lparr>error_value = u, error_context = c,
          error_message = Some (case eprops_errorMessage props of
              Some m \<Rightarrow> m
            | None \<Rightarrow>
                ascii ''Value should be one of \"'' @
                join (ascii ''\", \"'') (map literal_toString vals) @ ascii ''\"'')\<rparr>])) \<and>
   (vals \<noteq> [] \<longrightarrow>
      ascii ''Value should be one of \"'' @
      join (ascii ''\", \"'') (map literal_toString vals) @ ascii ''\"'' =
      ascii ''Value should be one of '' @
      join (ascii '', '')
        (map (\<lambda>v. ascii ''\"'' @ literal_toString v @ ascii ''\"'') vals)) \<and>
   encode (EnumType vals props) a = Returns a"
proof -
  have msg: "vals \<noteq> [] \<Longrightarrow>
      ascii ''Value should be one of \"'' @
      join (ascii ''\", \"'') (map literal_toString vals) @ ascii ''\"'' =
      ascii ''Value should be one of '' @
      join (ascii '', '')
        (map (\<lambda>v. ascii ''\"'' @ literal_toString v @ ascii ''\"'') vals)"
    using join_quoted [of "map literal_toString vals"]
    by (simp add: comp_def ascii_def)
  have ok: "(validate (EnumType vals props) u c = Returns (success u))
      = (\<exists>v. v \<in> set vals \<and> literal_value v = u)"
    by (auto simp: EnumType_def enum_is_def list_ex_iff success_def failure_def)
  have bad: "\<not> (\<exists>v. v \<in> set vals \<and> literal_value v = u) \<Longrightarrow>
      validate (EnumType vals props) u c =
        Returns (Left [\<lparr>error_value = u, error_context = c,
          error_message = Some (case eprops_errorMessage props of
              Some m \<Rightarrow> m
            | None \<Rightarrow>
                ascii ''Value should be one of \"'' @
                join (ascii ''\", \"'') (map literal_toString vals) @ ascii ''\"'')\<rparr>])"
    by (auto simp: EnumType_def enum_is_def list_ex_iff failure_def enum_errorMessage_def)
  have enc: "encode (EnumType vals props) a = Returns a"
    by (simp add: EnumType_def)
  show ?thesis using msg ok bad enc by blast
qed

theorem enum_validate_witness:
  "validate allowDeny (JStr (ascii ''deny'')) [] = Returns (success (JStr (ascii ''deny''))) \<and>
   validate (enums (ascii ''AllowDeny'') [LStr (ascii ''allow''), LStr (ascii ''deny'')] None)
       (JStr (ascii ''maybe'')) [] =
     Returns (Left [\<lparr>error_value = JStr (ascii ''maybe''), error_context = [],
        error_message = Some (ascii ''Value should be one of \"allow\", \"deny\"'')\<rparr>]) \<and>
   validate allowDeny (JStr (ascii ''maybe'')) [] =
     Returns (Left [\<lparr>error_value = JStr (ascii ''maybe''), error_context = [],
        error_message = Some (ascii ''Value should be allow or deny'')\<rparr>]) \<and>
   [LStr (ascii ''allow''), LStr (ascii ''deny'')] \<noteq> [] \<and>
   ascii ''Value should be one of \"allow\", \"deny\"'' =
     ascii ''Value should be one of '' @
     join (ascii '', '') [ascii ''\"allow\"'', ascii ''\"deny\"'']"
proof -
  let ?vs = "[LStr (ascii ''allow''), LStr (ascii ''deny'')]"
  let ?custom = "\<lparr>eprops_name = ascii ''AllowDeny'',
      eprops_errorMessage = Some (ascii ''Value should be allow or deny'')\<rparr>"
  let ?plain = "\<lparr>eprops_name = ascii ''AllowDeny'', eprops_errorMessage = None\<rparr>"
  have member: "\<exists>v. v \<in> set ?vs \<and> literal_value v = JStr (ascii ''deny'')"
    by (rule exI [of _ "LStr (ascii ''deny'')"]) simp
  have no_member: "\<not> (\<exists>v. v \<in> set ?vs \<and> literal_value v = JStr (ascii ''maybe''))"
    by auto
  have m1: "ascii ''Value should be one of \"'' @
      join (ascii ''\", \"'') (map literal_toString ?vs) @ ascii ''\"'' =
      ascii ''Value should be one of \"allow\", \"deny\"''"
    by (simp add: ascii_def)
  have a: "validate (EnumType ?vs ?custom) (JStr (ascii ''deny'')) [] =
      Returns (success (JStr (ascii ''deny'')))"
    using enum_validate [where vals = ?vs and props = ?custom
        and u = "JStr (ascii ''deny'')" and c = "[]"] member
    by blast
  have b: "validate (EnumType ?vs ?plain) (JStr (ascii ''maybe'')) [] =
      Returns (Left [\<lparr>error_value = JStr (ascii ''maybe''), error_context = [],
        error_message = Some (ascii ''Value should be one of \"allow\", \"deny\"'')\<rparr>])"
    using enum_validate [where vals = ?vs and props = ?plain
        and u = "JStr (ascii ''maybe'')" and c = "[]"] no_member
    unfolding m1 [symmetric] by simp
  have c: "validate (EnumType ?vs ?custom) (JStr (ascii ''maybe'')) [] =
      Returns (Left [\<lparr>error_value = JStr (ascii ''maybe''), error_context = [],
        error_message = Some (ascii ''Value should be allow or deny'')\<rparr>])"
    using enum_validate [where vals = ?vs and props = ?custom
        and u = "JStr (ascii ''maybe'')" and c = "[]"] no_member
    by simp
  have d: "ascii ''Value should be one of \"allow\", \"deny\"'' =
     ascii ''Value should be one of '' @
     join (ascii '', '') [ascii ''\"allow\"'', ascii ''\"deny\"'']"
  proof -
    have "?vs \<noteq> []" by simp
    with enum_validate [where vals = ?vs]
    have "ascii ''Value should be one of \"'' @
        join (ascii ''\", \"'') (map literal_toString ?vs) @ ascii ''\"'' =
      ascii ''Value should be one of '' @
      join (ascii '', '') (map (\<lambda>v. ascii ''\"'' @ literal_toString v @ ascii ''\"'') ?vs)"
      by blast
    then show ?thesis by (simp add: ascii_def)
  qed
  show ?thesis
    using a b c d by (simp add: allowDeny_def enums_def)
qed

text \<open>
  C10: the allowed values of the exported \<open>storageClass\<close> codec are seven, and the
  seventh is the string \<^verbatim>\<open>Value should be an AWS S3 Storage Class.\<close> (the codec has no
  custom error message); \<open>validate\<close> of that string succeeds with it unchanged, and
  \<open>validate\<close> of any value outside the list fails with the generated message, which
  lists that string among the allowed values.
\<close>

theorem storageClass_members:
  "length storageClass_values = 7 \<and>
   storageClass_values ! 6 = LStr (ascii ''Value should be an AWS S3 Storage Class.'') \<and>
   validate storageClass (JStr (ascii ''Value should be an AWS S3 Storage Class.'')) c =
     Returns (success (JStr (ascii ''Value should be an AWS S3 Storage Class.''))) \<and>
   (u \<notin> literal_value ` set storageClass_values \<longrightarrow>
      validate storageClass u c =
        Returns (Left [\<lparr>error_value = u, error_context = c,
          error_message = Some (ascii
            ''Value should be one of \"DEEP_ARCHIVE\", \"GLACIER\", \"GLACIER_IR\", \"STANDARD_IA\", \"INTELLIGENT_TIERING\", \"ONEZONE_IA\", \"Value should be an AWS S3 Storage Class.\"'')\<rparr>]))"
proof -
  have msg: "enum_errorMessage storageClass_values
       \<lparr>eprops_name = ascii ''storageClass'', eprops_errorMessage = None\<rparr> =
     ascii ''Value should be one of \"DEEP_ARCHIVE\", \"GLACIER\", \"GLACIER_IR\", \"STANDARD_IA\", \"INTELLIGENT_TIERING\", \"ONEZONE_IA\", \"Value should be an AWS S3 Storage Class.\"''"
    by (simp add: enum_errorMessage_def storageClass_values_def ascii_def)
  have len: "length storageClass_values = 7"
    by (simp add: storageClass_values_def)
  have seventh:
    "storageClass_values ! 6 = LStr (ascii ''Value should be an AWS S3 Storage Class.'')"
    by (simp add: storageClass_values_def)
  have ok: "validate storageClass (JStr (ascii ''Value should be an AWS S3 Storage Class.'')) c =
     Returns (success (JStr (ascii ''Value should be an AWS S3 Storage Class.'')))"
    by (simp add: storageClass_def enums_def EnumType_def enum_is_def storageClass_values_def)
  have bad: "u \<notin> literal_value ` set storageClass_values \<Longrightarrow>
      validate storageClass u c =
        Returns (Left [\<lparr>error_value = u, error_context = c,
          error_message = Some (enum_errorMessage storageClass_values
            \<lparr>eprops_name = ascii ''storageClass'', eprops_errorMessage = None\<rparr>)\<rparr>])"
    by (auto simp: storageClass_def enums_def EnumType_def failure_def enum_is_def list_ex_iff)
  show ?thesis using len seventh ok bad unfolding msg by blast
qed

theorem storageClass_members_witness:
  "JStr (ascii ''STANDARD'') \<notin> literal_value ` set storageClass_values \<and>
   validate storageClass (JStr (ascii ''STANDARD'')) [] =
        Returns (Left [\<lparr>error_value = JStr (ascii ''STANDARD''), error_context = [],
          error_message = Some (ascii
            ''Value should be one of \"DEEP_ARCHIVE\", \"GLACIER\", \"GLACIER_IR\", \"STANDARD_IA\", \"INTELLIGENT_TIERING\", \"ONEZONE_IA\", \"Value should be an AWS S3 Storage Class.\"'')\<rparr>])"
proof -
  have no: "JStr (ascii ''STANDARD'') \<notin> literal_value ` set storageClass_values"
    by (auto simp: storageClass_values_def)
  show ?thesis
    using no storageClass_members [where u = "JStr (ascii ''STANDARD'')" and c = "[]"] by blast
qed

subsection \<open>What a successful validate produces satisfies the type guard\<close>

text \<open>
  C9: for every codec of the core, a value produced by a successful \<open>validate\<close>
  satisfies the codec's \<open>is\<close>: for the CIDR and the enumeration codec outright, for
  \<open>Optional(T)\<close> and \<open>Sized(T)\<close> when \<open>T\<close> has the property, and for \<open>Defaulted(T, d)\<close>
  when \<open>T\<close> has the property and the default \<open>d\<close> satisfies \<open>T\<close>'s \<open>is\<close>, which is
  also necessary, since the default is returned without being validated.
\<close>

theorem validate_success_is:
  "validate_sound (CidrType lib n) \<and>
   (validate_sound T \<and> is_guard T d \<longrightarrow> validate_sound (DefaultedType T d n)) \<and>
   (validate_sound (DefaultedType T d n) \<longrightarrow> is_guard T d) \<and>
   (validate_sound T \<longrightarrow> validate_sound (OptionalType T n)) \<and>
   (validate_sound T \<longrightarrow> validate_sound (SizedType T props)) \<and>
   validate_sound (EnumType values eprops)"
proof -
  have cidr_ok: "validate_sound (CidrType lib n)"
    by (auto simp: validate_sound_def CidrType_def chain_def success_def failure_def
        string_validate_def split: jsvalue.splits outcome.splits)
  have def_ok: "validate_sound T \<Longrightarrow> is_guard T d \<Longrightarrow> validate_sound (DefaultedType T d n)"
    by (auto simp: validate_sound_def DefaultedType_def success_def split: if_splits)
  have def_needs: "validate_sound (DefaultedType T d n) \<Longrightarrow> is_guard T d"
  proof -
    assume s: "validate_sound (DefaultedType T d n)"
    have "validate (DefaultedType T d n) JNull [] = Returns (success d)"
      by (simp add: DefaultedType_def eq_null_def)
    with s have "is_guard (DefaultedType T d n) d"
      unfolding validate_sound_def by blast
    then show "is_guard T d" by (simp add: DefaultedType_def)
  qed
  have opt_ok: "validate_sound T \<Longrightarrow> validate_sound (OptionalType T n)"
    by (auto simp: validate_sound_def OptionalType_def success_def eq_null_def split: if_splits)
  have sized_ok: "validate_sound T \<Longrightarrow> validate_sound (SizedType T props)"
    by (auto simp: validate_sound_def SizedType_def chain_def success_def failure_def Let_def
        split: outcome.splits Either.splits if_splits)
  have enum_ok: "validate_sound (EnumType values eprops)"
    by (auto simp: validate_sound_def EnumType_def success_def failure_def split: if_splits)
  show ?thesis
    using cidr_ok def_ok def_needs opt_ok sized_ok enum_ok by blast
qed

theorem validate_success_is_witness:
  "validate_sound t_string \<and> is_guard t_string (JStr (ascii ''d'')) \<and>
   validate_sound (DefaultedType t_string (JStr (ascii ''d'')) None) \<and>
   validate_sound (OptionalType t_string None) \<and>
   validate_sound nonEmptyString \<and>
   \<not> is_guard t_string (JNum 5) \<and>
   \<not> validate_sound (DefaultedType t_string (JNum 5) None)"
proof -
  have g: "is_guard t_string (JStr (ascii ''d''))" by (simp add: t_string_def)
  have ng: "\<not> is_guard t_string (JNum 5)" by (simp add: t_string_def)
  note inst = validate_success_is [where T = t_string and d = "JStr (ascii ''d'')" and n = None
      and props = "\<lparr>props_min = Some 1, props_max = None, props_name = None,
        props_errorMessage = Some (ascii ''Value can not be empty.'')\<rparr>"]
  note inst2 = validate_success_is [where T = t_string and d = "JNum 5" and n = None]
  show ?thesis
    using validate_sound_t_string g ng inst inst2
    unfolding nonEmptyString_def sized_def by blast
qed

subsection \<open>CidrType\<close>

text \<open>
  C4: for every string \<open>s\<close> on which the CIDR parser throws, \<open>validate\<close> of the CIDR
  codec returns a failure with the single error
  \<^verbatim>\<open>Value {s} should be a CIDR range.\<close>; an input that is not a string fails with the
  failure of the string codec (a single error without a message); and on every input
  \<open>validate\<close> returns, it never throws. This holds for every parser.
\<close>

theorem cidr_validate_failure:
  "(fromCidr lib s = Throws e \<longrightarrow>
      validate (CidrType lib n) (JStr s) c =
        Returns (Left [\<lparr>error_value = JStr s, error_context = c,
          error_message = Some (ascii ''Value '' @ s @ ascii '' should be a CIDR range.'')\<rparr>])) \<and>
   (\<not> is_guard t_string u \<longrightarrow>
      validate (CidrType lib n) u c = validate t_string u c \<and>
      validate (CidrType lib n) u c =
        Returns (Left [\<lparr>error_value = u, error_context = c, error_message = None\<rparr>])) \<and>
   (\<exists>r. validate (CidrType lib n) u c = Returns r)"
  by (auto simp: CidrType_def chain_def string_validate_def success_def failure_def t_string_def
      split: jsvalue.splits outcome.splits)

theorem cidr_validate_failure_witness:
  "fromCidr spec_ip_num (ascii ''not-a-cidr'') = Throws (ParseError (ascii ''not-a-cidr'')) \<and>
   validate (cidr spec_ip_num) (JStr (ascii ''not-a-cidr'')) [] =
     Returns (Left [\<lparr>error_value = JStr (ascii ''not-a-cidr''), error_context = [],
       error_message = Some (ascii ''Value not-a-cidr should be a CIDR range.'')\<rparr>]) \<and>
   fromCidr spec_ip_num (ascii ''10.0.0.0/33'') = Throws (ParseError (ascii ''10.0.0.0/33'')) \<and>
   validate (cidr spec_ip_num) (JStr (ascii ''10.0.0.0/33'')) [] =
     Returns (Left [\<lparr>error_value = JStr (ascii ''10.0.0.0/33''), error_context = [],
       error_message = Some (ascii ''Value 10.0.0.0/33 should be a CIDR range.'')\<rparr>]) \<and>
   fromCidr spec_ip_num (ascii ''10.0.0/8'') = Throws (ParseError (ascii ''10.0.0/8'')) \<and>
   validate (cidr spec_ip_num) (JStr (ascii ''10.0.0/8'')) [] =
     Returns (Left [\<lparr>error_value = JStr (ascii ''10.0.0/8''), error_context = [],
       error_message = Some (ascii ''Value 10.0.0/8 should be a CIDR range.'')\<rparr>]) \<and>
   \<not> is_guard t_string (JNum 5) \<and>
   validate (cidr spec_ip_num) (JNum 5) [] =
     Returns (Left [\<lparr>error_value = JNum 5, error_context = [], error_message = None\<rparr>])"
proof -
  have p1: "fromCidr spec_ip_num (ascii ''not-a-cidr'') =
      Throws (ParseError (ascii ''not-a-cidr''))"
    unfolding spec_ip_num_def by (simp, code_simp)
  have p2: "fromCidr spec_ip_num (ascii ''10.0.0.0/33'') =
      Throws (ParseError (ascii ''10.0.0.0/33''))"
    unfolding spec_ip_num_def by (simp, code_simp)
  have p3: "fromCidr spec_ip_num (ascii ''10.0.0/8'') = Throws (ParseError (ascii ''10.0.0/8''))"
    unfolding spec_ip_num_def by (simp, code_simp)
  have ng: "\<not> is_guard t_string (JNum 5)" by (simp add: t_string_def)
  show ?thesis
    using p1 p2 p3 ng
      cidr_validate_failure [where lib = spec_ip_num and s = "ascii ''not-a-cidr''"
        and n = None and c = "[]" and u = "JNum 5"]
      cidr_validate_failure [where lib = spec_ip_num and s = "ascii ''10.0.0.0/33''"
        and n = None and c = "[]" and u = "JNum 5"]
      cidr_validate_failure [where lib = spec_ip_num and s = "ascii ''10.0.0/8''"
        and n = None and c = "[]" and u = "JNum 5"]
    by (simp add: cidr_def ascii_def)
qed

text \<open>
  C3 (amended): with the parser and the printer of the specification, for every range
  \<open>x\<close> with a prefix length in \<open>[0, 32]\<close> and no address bit set beyond the prefix,
  decoding the encoding of \<open>x\<close> succeeds with \<open>x\<close>; for any \<open>x\<close> with a prefix length in
  \<open>[0, 32]\<close> it succeeds with the normalized range, and the encoding is a canonical
  text. For every text \<open>s\<close> in canonical CIDR notation, decoding \<open>s\<close> succeeds and
  encoding the decoded range gives exactly \<open>s\<close> back. Every range that decoding
  produces has a prefix length in \<open>[0, 32]\<close> and no address bit set beyond the prefix.
\<close>

theorem cidr_roundtrip:
  "(prefixLength x \<le> 32 \<and>
    zero_host_bits (networkAddress x) (prefixLength x) = networkAddress x \<longrightarrow>
      encode (cidr spec_ip_num) (JCidr x) = Returns (JStr (spec_toCidrString x)) \<and>
      validate (cidr spec_ip_num) (JStr (spec_toCidrString x)) c =
        Returns (success (JCidr x))) \<and>
   (prefixLength x \<le> 32 \<longrightarrow>
      validate (cidr spec_ip_num) (JStr (spec_toCidrString x)) c =
        Returns (success (JCidr
          (x\<lparr>networkAddress := zero_host_bits (networkAddress x) (prefixLength x)\<rparr>))) \<and>
      canonical_cidr (spec_toCidrString x)) \<and>
   (canonical_cidr s \<longrightarrow>
      (\<exists>y. validate (cidr spec_ip_num) (JStr s) c = Returns (success (JCidr y)) \<and>
           encode (cidr spec_ip_num) (JCidr y) = Returns (JStr s))) \<and>
   (validate (cidr spec_ip_num) (JStr s) c = Returns (success v) \<longrightarrow>
      (\<exists>y. v = JCidr y \<and> prefixLength y \<le> 32 \<and>
           zero_host_bits (networkAddress y) (prefixLength y) = networkAddress y))"
proof -
  have enc: "encode (cidr spec_ip_num) (JCidr x) = Returns (JStr (spec_toCidrString x))" for x
    by (simp add: cidr_def CidrType_def spec_ip_num_def)
  have dec: "validate (cidr spec_ip_num) (JStr t) c = Returns (success (JCidr y))"
    if "spec_fromCidr t = Returns y" for t y
    using that
    by (simp add: cidr_def CidrType_def chain_def string_validate_def success_def
        spec_ip_num_def)
  have printed: "validate (cidr spec_ip_num) (JStr (spec_toCidrString x)) c =
        Returns (success (JCidr
          (x\<lparr>networkAddress := zero_host_bits (networkAddress x) (prefixLength x)\<rparr>))) \<and>
      canonical_cidr (spec_toCidrString x)"
    if "prefixLength x \<le> 32"
    using that dec [OF spec_roundtrip [OF that]] canonical_printed [of x] by simp
  have normal: "encode (cidr spec_ip_num) (JCidr x) = Returns (JStr (spec_toCidrString x)) \<and>
      validate (cidr spec_ip_num) (JStr (spec_toCidrString x)) c = Returns (success (JCidr x))"
    if "prefixLength x \<le> 32"
      and "zero_host_bits (networkAddress x) (prefixLength x) = networkAddress x"
    using that printed enc [of x] by simp
  have canonical: "\<exists>y. validate (cidr spec_ip_num) (JStr s) c = Returns (success (JCidr y)) \<and>
      encode (cidr spec_ip_num) (JCidr y) = Returns (JStr s)"
    if "canonical_cidr s"
  proof -
    from that obtain y where y: "spec_fromCidr s = Returns y" "spec_toCidrString y = s"
      using spec_canonical by blast
    from y show ?thesis using dec [of s y] enc [of y] by auto
  qed
  have decoded: "\<exists>y. v = JCidr y \<and> prefixLength y \<le> 32 \<and>
      zero_host_bits (networkAddress y) (prefixLength y) = networkAddress y"
    if v: "validate (cidr spec_ip_num) (JStr s) c = Returns (success v)"
  proof -
    from v obtain y where y: "spec_fromCidr s = Returns y" and "v = JCidr y"
      by (auto simp: cidr_def CidrType_def chain_def string_validate_def success_def
          failure_def spec_ip_num_def split: outcome.splits)
    with spec_fromCidr_normal [OF y] show ?thesis by simp
  qed
  show ?thesis using printed normal canonical decoded by blast
qed

theorem cidr_roundtrip_witness:
  "prefixLength \<lparr>networkAddress = (10, 0, 0, 0), prefixLength = 16\<rparr> \<le> 32 \<and>
   zero_host_bits (10, 0, 0, 0) 16 = (10, 0, 0, 0) \<and>
   canonical_cidr (ascii ''10.0.0.0/16'') \<and>
   encode (cidr spec_ip_num) (JCidr \<lparr>networkAddress = (10, 0, 0, 0), prefixLength = 16\<rparr>) =
     Returns (JStr (ascii ''10.0.0.0/16'')) \<and>
   validate (cidr spec_ip_num) (JStr (ascii ''10.0.0.0/16'')) [] =
     Returns (success (JCidr \<lparr>networkAddress = (10, 0, 0, 0), prefixLength = 16\<rparr>))"
proof -
  let ?x = "\<lparr>networkAddress = (10, 0, 0, 0), prefixLength = 16\<rparr>"
  have str: "spec_toCidrString ?x = ascii ''10.0.0.0/16''"
    by code_simp
  have can: "canonical_cidr (ascii ''10.0.0.0/16'')"
    by code_simp
  have zero: "zero_host_bits (10, 0, 0, 0) 16 = (10, 0, 0, 0)"
    by code_simp
  have dec: "validate (cidr spec_ip_num) (JStr (ascii ''10.0.0.0/16'')) [] =
      Returns (success (JCidr ?x))"
    unfolding spec_ip_num_def cidr_def CidrType_def
    by (simp add: chain_def string_validate_def success_def, code_simp)
  show ?thesis
    using can zero dec
      cidr_roundtrip [where x = ?x and s = "ascii ''10.0.0.0/16''" and c = "[]"
        and v = "JCidr ?x"]
    unfolding str by simp
qed

text \<open>
  The range 10.0.0.5/16, whose prefix length is in \<open>[0, 32]\<close>, encodes to
  \<^verbatim>\<open>10.0.0.0/16\<close>, and that text decodes to the range 10.0.0.0/16, which is not the
  range that was encoded.
\<close>

theorem cidr_roundtrip_counterexample:
  "prefixLength \<lparr>networkAddress = (10, 0, 0, 5), prefixLength = 16\<rparr> \<le> 32 \<and>
   encode (cidr spec_ip_num) (JCidr \<lparr>networkAddress = (10, 0, 0, 5), prefixLength = 16\<rparr>) =
     Returns (JStr (ascii ''10.0.0.0/16'')) \<and>
   validate (cidr spec_ip_num) (JStr (ascii ''10.0.0.0/16'')) [] =
     Returns (success (JCidr \<lparr>networkAddress = (10, 0, 0, 0), prefixLength = 16\<rparr>)) \<and>
   validate (cidr spec_ip_num) (JStr (ascii ''10.0.0.0/16'')) [] \<noteq>
     Returns (success (JCidr \<lparr>networkAddress = (10, 0, 0, 5), prefixLength = 16\<rparr>))"
proof -
  have str: "spec_toCidrString \<lparr>networkAddress = (10, 0, 0, 5), prefixLength = 16\<rparr> =
      ascii ''10.0.0.0/16''"
    by code_simp
  have parse: "spec_fromCidr (ascii ''10.0.0.0/16'') =
      Returns \<lparr>networkAddress = (10, 0, 0, 0), prefixLength = 16\<rparr>"
    by code_simp
  have differ: "(0 :: 8 word) \<noteq> 5"
    by simp
  show ?thesis
    using differ
    by (simp add: cidr_def CidrType_def spec_ip_num_def chain_def string_validate_def
        success_def str parse)
qed

subsection \<open>OptionalType's encoder\<close>

text \<open>
  C2 (the code differs): \<open>OptionalType\<close> passes the inner codec's encoder on as its
  own, so encoding \<^verbatim>\<open>undefined\<close> through \<open>Optional(T)\<close> calls \<open>T\<close>'s encoder: for the
  CIDR codec, whose encoder calls \<^verbatim>\<open>toCidrString\<close> on its argument, this throws a
  TypeError instead of returning \<^verbatim>\<open>undefined\<close>, and for a codec whose encoder throws it
  throws as well. For every value, \<open>Optional(T).encode\<close> is \<open>T.encode\<close>.
\<close>

theorem optional_encode_absent_throws:
  "encode (optional (cidr lib) None) JUndefined = Throws TypeError \<and>
   encode (optional throwing_type None) JUndefined = encode throwing_type JUndefined \<and>
   encode (OptionalType T n) a = encode T a"
  by (simp add: optional_def OptionalType_def cidr_def CidrType_def)

subsection \<open>SizedType\<close>

lemma sized_validate_inner_failure:
  "validate T u c = Returns (Left es) \<Longrightarrow> validate (SizedType T props) u c = Returns (Left es)"
  by (simp add: SizedType_def chain_def)

lemma sized_validate_unsupported:
  "validate T u c = Returns (Right s) \<Longrightarrow> \<not> WithSize s \<Longrightarrow>
   validate (SizedType T props) u c = Throws (UnsupportedSize s)"
  by (cases s) (simp_all add: SizedType_def chain_def)

lemma sized_validate_nonzero_bounds:
  assumes "validate T u c = Returns (Right s)" and "getSize s = Returns sz"
    and "props_min props \<noteq> Some 0" and "props_max props \<noteq> Some 0"
  shows "validate (SizedType T props) u c =
     (if (case props_min props of None \<Rightarrow> True | Some lo \<Rightarrow> lo \<le> sz) \<and>
         (case props_max props of None \<Rightarrow> True | Some hi \<Rightarrow> sz \<le> hi)
      then Returns (success s)
      else Returns (failure s c (Some (sized_errorMessage props))))"
  using assms
  by (auto simp: SizedType_def chain_def falsy_def truthy_def size_ge_def size_le_def
      split: option.splits)

lemma nonEmptyString_validate:
  "validate nonEmptyString (JStr []) c =
     Returns (failure (JStr []) c (Some (ascii ''Value can not be empty.''))) \<and>
   validate nonEmptyString (JStr (ascii ''a'')) c = Returns (success (JStr (ascii ''a'')))"
  by (simp add: nonEmptyString_def sized_def SizedType_def t_string_def string_validate_def
      chain_def success_def falsy_def truthy_def size_ge_def sized_errorMessage_def ascii_def)

text \<open>
  C1 (the code differs): \<open>SizedType\<close> tests its bounds by truthiness, so a bound of
  \<open>0\<close> counts as no bound. With \<open>max = 0\<close> and no \<open>min\<close>, the string \<^verbatim>\<open>abc\<close> of size 3
  validates successfully, although its size exceeds the bound; the generated message
  for these bounds would name the bound \<open>0\<close>.
\<close>

theorem sized_zero_max_accepts:
  "validate (sized t_string \<lparr>props_min = None, props_max = Some 0, props_name = None,
       props_errorMessage = None\<rparr>) (JStr (ascii ''abc'')) [] =
     Returns (success (JStr (ascii ''abc''))) \<and>
   getSize (JStr (ascii ''abc'')) = Returns 3 \<and>
   sized_errorMessage \<lparr>props_min = None, props_max = Some 0, props_name = None,
       props_errorMessage = None\<rparr> =
     ascii ''Value should be of size [-'' @ infinity_sign @ ascii '', 0]''"
  by (simp add: sized_def SizedType_def t_string_def string_validate_def chain_def success_def
      falsy_def truthy_def sized_errorMessage_def bound_or_def number_toString_def
      decimal.simps ascii_def)

end
